theory Spec2Isabelle
  imports Main "HOL-Library.Stream"
begin

section \<open>The Snake game of \<^verbatim>\<open>src/components/SnakeGame.tsx\<close>\<close>

text \<open>
  The component holds five pieces of state (phase, snake, food, direction, score) and has
  three mutators: the tick \<^verbatim>\<open>gameLoop\<close>, the keyboard handler \<^verbatim>\<open>handleKeyPress\<close> and the
  restart action \<^verbatim>\<open>startGame\<close>. They are embedded as functions on a record of that state.
  The file holds the component twice (the second copy adds a bite sound to the eating
  branch); the state logic of both copies is the same, and is the one embedded here.
\<close>

subsection \<open>Data model\<close>

definition GRID_SIZE :: int where
  "GRID_SIZE = 20"

text \<open>\<^verbatim>\<open>type Position = { x: number; y: number }\<close>; every coordinate the program computes is
  an integer.\<close>

record Position =
  x :: int
  y :: int

text \<open>\<^verbatim>\<open>type GameState = 'menu' | 'playing' | 'paused' | 'gameOver'\<close>\<close>

datatype GameState = Menu | Playing | Paused | GameOver

text \<open>The five \<^verbatim>\<open>useState\<close> cells of the component.\<close>

record Game =
  gameState :: GameState
  snake :: "Position list"
  food :: Position
  direction :: Position
  score :: int

definition INITIAL_SNAKE :: "Position list" where
  "INITIAL_SNAKE = [\<lparr>x = 10, y = 10\<rparr>]"

definition INITIAL_FOOD :: Position where
  "INITIAL_FOOD = \<lparr>x = 15, y = 15\<rparr>"

definition INITIAL_DIRECTION :: Position where
  "INITIAL_DIRECTION = \<lparr>x = 0, y = - 1\<rparr>"

text \<open>The state of the first render: the initial values given to \<^verbatim>\<open>useState\<close>.\<close>

definition initialGame :: Game where
  "initialGame =
     \<lparr>gameState = Menu, snake = INITIAL_SNAKE, food = INITIAL_FOOD,
      direction = INITIAL_DIRECTION, score = 0\<rparr>"

subsection \<open>Food placement\<close>

text \<open>
  \<^verbatim>\<open>generateFood\<close> is a do-while loop around two evaluations of
  \<^verbatim>\<open>Math.floor(Math.random() * GRID_SIZE)\<close>. The random source is the stream of the
  integers those evaluations yield, in evaluation order (\<^verbatim>\<open>x\<close> is drawn before \<^verbatim>\<open>y\<close>):
  the floored draw is the primitive, so the double-precision product and its rounding are
  the environment's and not computed here. The function returns the rest of the stream
  with the position. The loop has no bound, so the function is partial: \<open>None\<close> is the
  loop that never exits.
\<close>

partial_function (option) generateFood ::
  "int stream \<Rightarrow> Position list \<Rightarrow> (Position \<times> int stream) option" where
  "generateFood rnd snakeBody =
     (let newFood = \<lparr>x = shd rnd, y = shd (stl rnd)\<rparr>
      in if list_ex (\<lambda>segment. x segment = x newFood \<and> y segment = y newFood) snakeBody
         then generateFood (stl (stl rnd)) snakeBody
         else Some (newFood, stl (stl rnd)))"

subsection \<open>Restart\<close>

definition resetGame :: "Game \<Rightarrow> Game" where
  "resetGame s =
     s\<lparr>snake := INITIAL_SNAKE, food := INITIAL_FOOD,
       direction := INITIAL_DIRECTION, score := 0\<rparr>"

definition startGame :: "Game \<Rightarrow> Game" where
  "startGame s = (resetGame s)\<lparr>gameState := Playing\<rparr>"

subsection \<open>The tick\<close>

text \<open>
  \<^verbatim>\<open>gameLoop\<close> returns at once unless the phase is playing; otherwise it runs the updater
  given to \<^verbatim>\<open>setSnake\<close>, whose calls of \<^verbatim>\<open>setGameState\<close>, \<^verbatim>\<open>setScore\<close> and \<^verbatim>\<open>setFood\<close>
  are the other field updates below. On an empty snake the source reads \<^verbatim>\<open>newSnake[0]\<close> as
  \<^verbatim>\<open>undefined\<close>, the head's coordinates are \<^verbatim>\<open>NaN\<close>, every comparison fails, the head is
  pushed and popped again: the state does not change.
\<close>

definition gameLoop :: "int stream \<Rightarrow> Game \<Rightarrow> (Game \<times> int stream) option" where
  "gameLoop rnd s =
     (if gameState s \<noteq> Playing then Some (s, rnd)
      else case snake s of
        [] \<Rightarrow> Some (s, rnd)
      | first # _ \<Rightarrow>
          let currentSnake = snake s;
              head = \<lparr>x = x first + x (direction s), y = y first + y (direction s)\<rparr>
          in if x head < 0 \<or> GRID_SIZE \<le> x head \<or> y head < 0 \<or> GRID_SIZE \<le> y head
             then Some (s\<lparr>gameState := GameOver\<rparr>, rnd)
             else if list_ex (\<lambda>segment. x segment = x head \<and> y segment = y head) currentSnake
             then Some (s\<lparr>gameState := GameOver\<rparr>, rnd)
             else let newSnake = head # currentSnake
                  in if x head = x (food s) \<and> y head = y (food s)
                     then (case generateFood rnd newSnake of
                             None \<Rightarrow> None
                           | Some (newFood, rnd') \<Rightarrow>
                               Some (s\<lparr>snake := newSnake, food := newFood,
                                       score := score s + 10\<rparr>, rnd'))
                     else Some (s\<lparr>snake := butlast newSnake\<rparr>, rnd))"

subsection \<open>Keyboard\<close>

text \<open>The handler's argument is \<^verbatim>\<open>e.key\<close>; the space bar is the one-character string.\<close>

definition handleKeyPress :: "string \<Rightarrow> Game \<Rightarrow> Game" where
  "handleKeyPress key s =
     (if gameState s = Playing then
        (if key = ''ArrowUp'' \<or> key = ''w'' \<or> key = ''W'' then
           (if y (direction s) = 0 then s\<lparr>direction := \<lparr>x = 0, y = - 1\<rparr>\<rparr> else s)
         else if key = ''ArrowDown'' \<or> key = ''s'' \<or> key = ''S'' then
           (if y (direction s) = 0 then s\<lparr>direction := \<lparr>x = 0, y = 1\<rparr>\<rparr> else s)
         else if key = ''ArrowLeft'' \<or> key = ''a'' \<or> key = ''A'' then
           (if x (direction s) = 0 then s\<lparr>direction := \<lparr>x = - 1, y = 0\<rparr>\<rparr> else s)
         else if key = ''ArrowRight'' \<or> key = ''d'' \<or> key = ''D'' then
           (if x (direction s) = 0 then s\<lparr>direction := \<lparr>x = 1, y = 0\<rparr>\<rparr> else s)
         else if key = '' '' then s\<lparr>gameState := Paused\<rparr>
         else s)
      else if gameState s = Paused \<and> key = '' '' then s\<lparr>gameState := Playing\<rparr>
      else s)"

subsection \<open>Notions the properties are stated with\<close>

text \<open>A position of the grid: both coordinates in \<open>[0, GRID_SIZE)\<close>.\<close>

definition in_grid :: "Position \<Rightarrow> bool" where
  "in_grid p = (0 \<le> x p \<and> x p < GRID_SIZE \<and> 0 \<le> y p \<and> y p < GRID_SIZE)"

text \<open>The snake's invariant: at least one segment, no position twice.\<close>

definition snake_inv :: "Position list \<Rightarrow> bool" where
  "snake_inv body = (body \<noteq> [] \<and> distinct body)"

text \<open>The cell the tick moves the head to.\<close>

definition newHead :: "Game \<Rightarrow> Position" where
  "newHead s =
     \<lparr>x = x (hd (snake s)) + x (direction s), y = y (hd (snake s)) + y (direction s)\<rparr>"

text \<open>The \<open>k\<close>-th position the loop of \<open>generateFood\<close> proposes: floored draws \<open>2k\<close> and
  \<open>2k + 1\<close> of the random source.\<close>

definition proposal :: "int stream \<Rightarrow> nat \<Rightarrow> Position" where
  "proposal rnd k = \<lparr>x = rnd !! (2 * k), y = rnd !! (2 * k + 1)\<rparr>"

text \<open>What the environment promises of a floored draw: \<^verbatim>\<open>Math.random()\<close> is a double in
  \<open>[0, 1)\<close>, its double product with \<open>20\<close> is at least \<open>0\<close> and, also after rounding, below
  \<open>20\<close> (the largest draw, one less \<open>2 ^ (- 53)\<close>, gives the double next below \<open>20\<close>), so the
  floor is an integer in \<open>[0, GRID_SIZE)\<close>.\<close>

definition random_ok :: "int stream \<Rightarrow> bool" where
  "random_ok rnd = (\<forall>k. 0 \<le> rnd !! k \<and> rnd !! k < GRID_SIZE)"

text \<open>A body that occupies every cell of the grid.\<close>

definition saturated :: "Position list \<Rightarrow> bool" where
  "saturated body = (\<forall>p. in_grid p \<longrightarrow> p \<in> set body)"

text \<open>The body that lists every cell of the grid, column by column.\<close>

definition fullGrid :: "Position list" where
  "fullGrid =
     concat (map (\<lambda>i. map (\<lambda>j. \<lparr>x = i, y = j\<rparr>) [0..GRID_SIZE - 1]) [0..GRID_SIZE - 1])"

text \<open>The four unit vectors, the vector a movement key stands for (the one its \<^verbatim>\<open>case\<close>
  passes to \<^verbatim>\<open>setDirection\<close>), the reverse of a vector, and two vectors on one axis.\<close>

definition is_direction :: "Position \<Rightarrow> bool" where
  "is_direction d =
     (d = \<lparr>x = 0, y = - 1\<rparr> \<or> d = \<lparr>x = 0, y = 1\<rparr> \<or> d = \<lparr>x = - 1, y = 0\<rparr> \<or> d = \<lparr>x = 1, y = 0\<rparr>)"

definition keyVector :: "string \<Rightarrow> Position option" where
  "keyVector key =
     (if key = ''ArrowUp'' \<or> key = ''w'' \<or> key = ''W'' then Some \<lparr>x = 0, y = - 1\<rparr>
      else if key = ''ArrowDown'' \<or> key = ''s'' \<or> key = ''S'' then Some \<lparr>x = 0, y = 1\<rparr>
      else if key = ''ArrowLeft'' \<or> key = ''a'' \<or> key = ''A'' then Some \<lparr>x = - 1, y = 0\<rparr>
      else if key = ''ArrowRight'' \<or> key = ''d'' \<or> key = ''D'' then Some \<lparr>x = 1, y = 0\<rparr>
      else None)"

definition opposite :: "Position \<Rightarrow> Position" where
  "opposite d = \<lparr>x = - x d, y = - y d\<rparr>"

definition same_axis :: "Position \<Rightarrow> Position \<Rightarrow> bool" where
  "same_axis d v = ((x d = 0 \<and> x v = 0) \<or> (y d = 0 \<and> y v = 0))"

text \<open>The states the component can be in: the first render, and whatever the restart
  button, a key event or a tick that returns makes of a state it can be in. The interface
  shows the restart button in the phases menu and game over only; here restart may happen
  in any phase, which reaches no fewer states.\<close>

inductive reachable :: "Game \<Rightarrow> bool" where
  reach_init: "reachable initialGame"
| reach_start: "reachable s \<Longrightarrow> reachable (startGame s)"
| reach_key: "reachable s \<Longrightarrow> reachable (handleKeyPress key s)"
| reach_tick: "reachable s \<Longrightarrow> gameLoop rnd s = Some (s', rnd') \<Longrightarrow> reachable s'"

section \<open>Facts about the loop of \<open>generateFood\<close>\<close>

text \<open>The test of the loop, \<^verbatim>\<open>snakeBody.some(...)\<close>, compares both coordinates: it is
  membership in the body.\<close>

lemma some_iff_mem:
  "list_ex (\<lambda>segment. x segment = x p \<and> y segment = y p) body \<longleftrightarrow> (p::Position) \<in> set body"
  by (induction body) auto

lemma proposal_stl: "proposal (stl (stl rnd)) k = proposal rnd (Suc k)"
  by (simp add: proposal_def)

lemma proposal_0: "proposal rnd 0 = \<lparr>x = shd rnd, y = shd (stl rnd)\<rparr>"
  by (simp add: proposal_def)

lemma sdrop_2: "sdrop 2 s = stl (stl s)"
  by (simp add: numeral_2_eq_2)

text \<open>One round of the loop, in terms of the proposals.\<close>

lemma generateFood_unfold:
  "generateFood rnd body =
     (if proposal rnd 0 \<in> set body then generateFood (stl (stl rnd)) body
      else Some (proposal rnd 0, stl (stl rnd)))"
  by (subst generateFood.simps) (simp add: Let_def some_iff_mem proposal_0 del: One_nat_def)

text \<open>If proposal \<open>k\<close> is the first one off the body, the loop exits in round \<open>k\<close> with
  it, having used \<open>2 (k + 1)\<close> draws; and every result of the loop is of that kind.\<close>

lemma generateFood_first_free:
  "proposal rnd k \<notin> set body \<Longrightarrow> (\<forall>j<k. proposal rnd j \<in> set body) \<Longrightarrow>
   generateFood rnd body = Some (proposal rnd k, sdrop (2 * Suc k) rnd)"
proof (induction k arbitrary: rnd)
  case 0
  then show ?case by (subst generateFood_unfold) (simp add: sdrop_2)
next
  case (Suc k)
  have "proposal (stl (stl rnd)) k \<notin> set body"
    using Suc.prems(1) by (simp add: proposal_stl)
  moreover have "\<forall>j<k. proposal (stl (stl rnd)) j \<in> set body"
    using Suc.prems(2) by (simp add: proposal_stl)
  ultimately have "generateFood (stl (stl rnd)) body =
      Some (proposal (stl (stl rnd)) k, sdrop (2 * Suc k) (stl (stl rnd)))"
    by (rule Suc.IH)
  moreover have "proposal rnd 0 \<in> set body"
    using Suc.prems(2) by simp
  ultimately show ?case
    by (subst generateFood_unfold) (simp add: proposal_stl)
qed

lemma generateFood_Some_D:
  assumes "generateFood rnd body = Some r"
  shows "\<exists>k. r = (proposal rnd k, sdrop (2 * Suc k) rnd) \<and> proposal rnd k \<notin> set body
       \<and> (\<forall>j<k. proposal rnd j \<in> set body)"
proof (rule generateFood.raw_induct
    [where P = "\<lambda>rnd body r. \<exists>k. r = (proposal rnd k, sdrop (2 * Suc k) rnd)
       \<and> proposal rnd k \<notin> set body \<and> (\<forall>j<k. proposal rnd j \<in> set body)", OF _ assms])
  fix loop :: "int stream \<Rightarrow> Position list \<Rightarrow> (Position \<times> int stream) option"
  fix rnd body r
  assume IH: "\<And>rnd body r. loop rnd body = Some r \<Longrightarrow>
      \<exists>k. r = (proposal rnd k, sdrop (2 * Suc k) rnd) \<and> proposal rnd k \<notin> set body
         \<and> (\<forall>j<k. proposal rnd j \<in> set body)"
  assume body_eq: "(let newFood = \<lparr>x = shd rnd, y = shd (stl rnd)\<rparr>
      in if list_ex (\<lambda>segment. x segment = x newFood \<and> y segment = y newFood) body
         then loop (stl (stl rnd)) body
         else Some (newFood, stl (stl rnd))) = Some r"
  show "\<exists>k. r = (proposal rnd k, sdrop (2 * Suc k) rnd) \<and> proposal rnd k \<notin> set body
       \<and> (\<forall>j<k. proposal rnd j \<in> set body)"
  proof (cases "proposal rnd 0 \<in> set body")
    case True
    then have "loop (stl (stl rnd)) body = Some r"
      using body_eq by (simp add: Let_def some_iff_mem proposal_0 del: One_nat_def)
    then obtain k where k: "r = (proposal (stl (stl rnd)) k, sdrop (2 * Suc k) (stl (stl rnd)))"
      "proposal (stl (stl rnd)) k \<notin> set body" "\<forall>j<k. proposal (stl (stl rnd)) j \<in> set body"
      using IH by blast
    have "\<forall>j<Suc k. proposal rnd j \<in> set body"
    proof (intro allI impI)
      fix j assume "j < Suc k"
      then show "proposal rnd j \<in> set body"
        using True k(3) by (cases j) (auto simp: proposal_stl)
    qed
    with k(1,2) show ?thesis
      by (intro exI[of _ "Suc k"]) (simp add: proposal_stl)
  next
    case False
    then have "r = (proposal rnd 0, stl (stl rnd))"
      using body_eq by (auto simp add: Let_def some_iff_mem proposal_0 simp del: One_nat_def)
    with False show ?thesis
      by (intro exI[of _ 0]) (simp add: sdrop_2)
  qed
qed

lemma generateFood_None_iff:
  "generateFood rnd body = None \<longleftrightarrow> (\<forall>k. proposal rnd k \<in> set body)"
proof
  assume n: "generateFood rnd body = None"
  show "\<forall>k. proposal rnd k \<in> set body"
  proof (rule ccontr)
    assume "\<not> (\<forall>k. proposal rnd k \<in> set body)"
    then have ex: "\<exists>k. proposal rnd k \<notin> set body" by simp
    define m where "m = (LEAST k. proposal rnd k \<notin> set body)"
    have "proposal rnd m \<notin> set body"
      unfolding m_def using ex by (rule LeastI_ex)
    moreover have "\<forall>j<m. proposal rnd j \<in> set body"
      unfolding m_def using not_less_Least by blast
    ultimately have "generateFood rnd body = Some (proposal rnd m, sdrop (2 * Suc m) rnd)"
      by (rule generateFood_first_free)
    with n show False by simp
  qed
next
  assume a: "\<forall>k. proposal rnd k \<in> set body"
  show "generateFood rnd body = None"
  proof (cases "generateFood rnd body")
    case None then show ?thesis .
  next
    case (Some r)
    from generateFood_Some_D[OF this] a show ?thesis by blast
  qed
qed

lemma generateFood_least:
  assumes "\<exists>k. proposal rnd k \<notin> set body"
  shows "generateFood rnd body =
     Some (proposal rnd (LEAST k. proposal rnd k \<notin> set body),
           sdrop (2 * Suc (LEAST k. proposal rnd k \<notin> set body)) rnd)"
proof (rule generateFood_first_free)
  show "proposal rnd (LEAST k. proposal rnd k \<notin> set body) \<notin> set body"
    using assms by (rule LeastI_ex)
  show "\<forall>j<LEAST k. proposal rnd k \<notin> set body. proposal rnd j \<in> set body"
    using not_less_Least by blast
qed

lemma generateFood_avoids:
  assumes "generateFood rnd body = Some (f, rnd')"
  shows "f \<notin> set body"
  using generateFood_Some_D[OF assms] by auto

text \<open>Floored draws in \<open>[0, GRID_SIZE)\<close> give proposals on the grid.\<close>

lemma proposal_in_grid:
  assumes "random_ok rnd"
  shows "in_grid (proposal rnd k)"
proof -
  have r: "0 \<le> rnd !! n \<and> rnd !! n < GRID_SIZE" for n
    using assms by (simp add: random_ok_def)
  show ?thesis
    unfolding in_grid_def proposal_def
    using r[of "2 * k"] r[of "2 * k + 1"]
    by (simp del: snth.simps)
qed

lemma generateFood_saturated:
  assumes "random_ok rnd" and "saturated body"
  shows "generateFood rnd body = None"
proof -
  have "proposal rnd k \<in> set body" for k
    using assms proposal_in_grid[of rnd k] by (simp add: saturated_def)
  then show ?thesis
    by (simp add: generateFood_None_iff)
qed

lemma random_ok_sconst: "0 \<le> c \<Longrightarrow> c < GRID_SIZE \<Longrightarrow> random_ok (sconst c)"
  by (simp add: random_ok_def)

lemma random_ok_SCons: "random_ok (a ## s) = (0 \<le> a \<and> a < GRID_SIZE \<and> random_ok s)"
proof
  assume ok: "random_ok (a ## s)"
  have "0 \<le> (a ## s) !! 0 \<and> (a ## s) !! 0 < GRID_SIZE"
    using ok unfolding random_ok_def by blast
  moreover have "0 \<le> (a ## s) !! Suc k \<and> (a ## s) !! Suc k < GRID_SIZE" for k
    using ok unfolding random_ok_def by blast
  ultimately show "0 \<le> a \<and> a < GRID_SIZE \<and> random_ok s"
    by (simp add: random_ok_def)
next
  assume a: "0 \<le> a \<and> a < GRID_SIZE \<and> random_ok s"
  show "random_ok (a ## s)"
    unfolding random_ok_def
  proof
    fix k
    show "0 \<le> (a ## s) !! k \<and> (a ## s) !! k < GRID_SIZE"
      using a by (cases k) (simp_all add: random_ok_def)
  qed
qed

lemma proposal_SCons_0: "proposal (a ## b ## s) 0 =
    \<lparr>x = a, y = b\<rparr>"
  by (simp add: proposal_def)

lemma proposal_SCons_Suc: "proposal (a ## b ## s) (Suc k) = proposal s k"
  by (simp add: proposal_def)

lemma mem_fullGrid: "in_grid p \<Longrightarrow> p \<in> set fullGrid"
proof -
  assume g: "in_grid p"
  obtain a b where p: "p = \<lparr>x = a, y = b\<rparr>"
    by (cases p) simp
  have i: "a \<in> {0..GRID_SIZE - 1}" and j: "b \<in> {0..GRID_SIZE - 1}"
    using g by (simp_all add: in_grid_def p)
  have "\<lparr>x = a, y = b\<rparr> \<in> (\<lambda>j. \<lparr>x = a, y = j\<rparr>) ` {0..GRID_SIZE - 1}"
    using j by (rule imageI)
  then have "\<lparr>x = a, y = b\<rparr> \<in> (\<Union>i\<in>{0..GRID_SIZE - 1}. (\<lambda>j. \<lparr>x = i, y = j\<rparr>) ` {0..GRID_SIZE - 1})"
    using i by (rule UN_I[rotated])
  then show ?thesis
    by (simp add: fullGrid_def p)
qed

lemma saturated_fullGrid: "saturated fullGrid"
  by (simp add: saturated_def mem_fullGrid)

text \<open>The loop can exit in any round: for an occupied cell \<open>p\<close> and a free cell \<open>q\<close> of the
  grid there is a random source that proposes \<open>p\<close> in the first \<open>n\<close> rounds and \<open>q\<close> in the
  next.\<close>

lemma cell_draw:
  assumes "in_grid c"
  shows "0 \<le> x c \<and> x c < GRID_SIZE \<and> 0 \<le> y c \<and> y c < GRID_SIZE
       \<and> \<lparr>x = x c, y = y c\<rparr> = c"
  using assms by (simp add: in_grid_def)

lemma proposals_any_round:
  assumes "in_grid p" and "in_grid q"
  shows "\<exists>rnd. random_ok rnd \<and> proposal rnd n = q \<and> (\<forall>j<n. proposal rnd j = p)"
proof (induction n)
  case 0
  let ?rnd = "x q ## y q ## sconst 0"
  have "random_ok ?rnd"
    using cell_draw[OF assms(2)]
    by (simp add: random_ok_SCons random_ok_sconst GRID_SIZE_def)
  moreover have "proposal ?rnd 0 = q"
    using cell_draw[OF assms(2)] by (simp only: proposal_SCons_0)
  ultimately show ?case by blast
next
  case (Suc n)
  then obtain rnd where r: "random_ok rnd" "proposal rnd n = q" "\<forall>j<n. proposal rnd j = p"
    by blast
  let ?rnd = "x p ## y p ## rnd"
  have "random_ok ?rnd"
    using cell_draw[OF assms(1)] r(1) by (simp add: random_ok_SCons)
  moreover have "proposal ?rnd (Suc n) = q"
    using r(2) by (simp only: proposal_SCons_Suc)
  moreover have "proposal ?rnd j = p" if "j < Suc n" for j
  proof (cases j)
    case 0
    then show ?thesis using cell_draw[OF assms(1)] by (simp only: proposal_SCons_0)
  next
    case (Suc i)
    then show ?thesis using that r(3) by (simp add: proposal_SCons_Suc)
  qed
  ultimately show ?case by blast
qed

lemma generateFood_any_round:
  assumes "in_grid p" and "p \<in> set body" and "in_grid q" and "q \<notin> set body"
  shows "\<exists>rnd. random_ok rnd \<and> (\<forall>j<n. proposal rnd j \<in> set body)
           \<and> generateFood rnd body = Some (q, sdrop (2 * Suc n) rnd)"
proof -
  obtain rnd where r: "random_ok rnd" "proposal rnd n = q" "\<forall>j<n. proposal rnd j = p"
    using proposals_any_round[OF assms(1,3)] by blast
  have a: "proposal rnd n \<notin> set body" using r(2) assms(4) by simp
  have b: "\<forall>j<n. proposal rnd j \<in> set body" using r(3) assms(2) by simp
  have "generateFood rnd body = Some (proposal rnd n, sdrop (2 * Suc n) rnd)"
    using a b by (rule generateFood_first_free)
  then show ?thesis using r(1,2) b by blast
qed

section \<open>Facts about the tick\<close>

text \<open>The four outcomes of a tick in phase playing on a non-empty snake, by the cell
  the head moves to.\<close>

lemma gameLoop_not_playing: "gameState s \<noteq> Playing \<Longrightarrow> gameLoop rnd s = Some (s, rnd)"
  by (simp add: gameLoop_def)

lemma gameLoop_empty: "snake s = [] \<Longrightarrow> gameLoop rnd s = Some (s, rnd)"
  by (simp add: gameLoop_def)

lemma gameLoop_playing:
  assumes "gameState s = Playing" "snake s \<noteq> []"
  shows "gameLoop rnd s =
     (if \<not> in_grid (newHead s) then Some (s\<lparr>gameState := GameOver\<rparr>, rnd)
      else if newHead s \<in> set (snake s) then Some (s\<lparr>gameState := GameOver\<rparr>, rnd)
      else if newHead s = food s
      then (case generateFood rnd (newHead s # snake s) of
              None \<Rightarrow> None
            | Some (newFood, rnd') \<Rightarrow>
                Some (s\<lparr>snake := newHead s # snake s, food := newFood,
                        score := score s + 10\<rparr>, rnd'))
      else Some (s\<lparr>snake := butlast (newHead s # snake s)\<rparr>, rnd))"
proof -
  obtain first rest where c: "snake s = first # rest"
    using assms(2) by (cases "snake s") auto
  have h: "\<lparr>x = x first + x (direction s), y = y first + y (direction s)\<rparr> = newHead s"
    by (simp add: newHead_def c)
  have w: "(x (newHead s) < 0 \<or> GRID_SIZE \<le> x (newHead s) \<or> y (newHead s) < 0
      \<or> GRID_SIZE \<le> y (newHead s)) = (\<not> in_grid (newHead s))"
    by (auto simp: in_grid_def)
  have e: "(x (newHead s) = x (food s) \<and> y (newHead s) = y (food s)) = (newHead s = food s)"
    by auto
  have "gameLoop rnd s =
     (if \<not> in_grid (newHead s) then Some (s\<lparr>gameState := GameOver\<rparr>, rnd)
      else if newHead s \<in> set (first # rest) then Some (s\<lparr>gameState := GameOver\<rparr>, rnd)
      else if newHead s = food s
      then (case generateFood rnd (newHead s # first # rest) of
              None \<Rightarrow> None
            | Some (newFood, rnd') \<Rightarrow>
                Some (s\<lparr>snake := newHead s # first # rest, food := newFood,
                        score := score s + 10\<rparr>, rnd'))
      else Some (s\<lparr>snake := butlast (newHead s # first # rest)\<rparr>, rnd))"
    by (simp only: gameLoop_def Let_def assms(1) c list.case h w e some_iff_mem
        if_True if_False simp_thms)
  then show ?thesis
    by (simp only: c)
qed

text \<open>A tick that returns keeps the snake's invariant, and changes the phase only on a
  collision, where it keeps the snake.\<close>

lemma gameLoop_step_inv:
  assumes inv: "snake_inv (snake s)" and step: "gameLoop rnd s = Some (s', rnd')"
  shows "snake_inv (snake s') \<and>
         (gameState s' = gameState s \<or> (snake s' = snake s \<and> gameState s' = GameOver))"
proof (cases "gameState s = Playing")
  case False
  then have "s' = s"
    using step by (simp add: gameLoop_not_playing)
  then show ?thesis
    using inv by simp
next
  case True
  have ne: "snake s \<noteq> []" and d: "distinct (snake s)"
    using inv by (simp_all add: snake_inv_def)
  note gl = gameLoop_playing[OF True ne, of rnd]
  consider (over) "\<not> in_grid (newHead s) \<or> newHead s \<in> set (snake s)"
    | (eat) "in_grid (newHead s)" "newHead s \<notin> set (snake s)" "newHead s = food s"
    | (move) "in_grid (newHead s)" "newHead s \<notin> set (snake s)" "newHead s \<noteq> food s"
    by blast
  then show ?thesis
  proof cases
    case over
    then have "s' = s\<lparr>gameState := GameOver\<rparr>"
      using step gl by (auto split: if_splits)
    then show ?thesis
      using inv by simp
  next
    case eat
    then obtain newFood where "s' = s\<lparr>snake := newHead s # snake s, food := newFood,
        score := score s + 10\<rparr>"
      using step gl by (auto split: option.splits)
    then show ?thesis
      using eat(2) d by (simp add: snake_inv_def)
  next
    case move
    then have s': "s' = s\<lparr>snake := butlast (newHead s # snake s)\<rparr>"
      using step gl by simp
    have "distinct (butlast (newHead s # snake s))"
      using move(2) d by (intro distinct_butlast) simp
    then show ?thesis
      using ne s' by (simp add: snake_inv_def)
  qed
qed

lemma snake_inv_startGame: "snake_inv (snake (startGame s))"
  by (simp add: startGame_def resetGame_def INITIAL_SNAKE_def snake_inv_def)

lemma snake_handleKeyPress: "snake (handleKeyPress key s) = snake s"
  by (simp add: handleKeyPress_def)

lemma reachable_snake_inv: "reachable s \<Longrightarrow> snake_inv (snake s)"
proof (induction rule: reachable.induct)
  case reach_init
  show ?case by (simp add: initialGame_def INITIAL_SNAKE_def snake_inv_def)
next
  case (reach_start s)
  show ?case by (rule snake_inv_startGame)
next
  case (reach_key s key)
  then show ?case by (simp add: snake_handleKeyPress)
next
  case (reach_tick s rnd s' rnd')
  then show ?case using gameLoop_step_inv by blast
qed

lemma gameLoop_returns:
  assumes "\<exists>k. proposal rnd k \<notin> set (newHead s # snake s)"
  shows "\<exists>s' rnd'. gameLoop rnd s = Some (s', rnd')"
proof (cases "gameState s = Playing \<and> snake s \<noteq> []")
  case False
  then show ?thesis
    using gameLoop_not_playing[of s rnd] gameLoop_empty[of s rnd] by auto
next
  case True
  then have gl: "gameLoop rnd s =
     (if \<not> in_grid (newHead s) then Some (s\<lparr>gameState := GameOver\<rparr>, rnd)
      else if newHead s \<in> set (snake s) then Some (s\<lparr>gameState := GameOver\<rparr>, rnd)
      else if newHead s = food s
      then (case generateFood rnd (newHead s # snake s) of
              None \<Rightarrow> None
            | Some (newFood, rnd') \<Rightarrow>
                Some (s\<lparr>snake := newHead s # snake s, food := newFood,
                        score := score s + 10\<rparr>, rnd'))
      else Some (s\<lparr>snake := butlast (newHead s # snake s)\<rparr>, rnd))"
    by (intro gameLoop_playing) simp_all
  have "generateFood rnd (newHead s # snake s) \<noteq> None"
    using assms by (simp only: generateFood_None_iff) blast
  then obtain f r where "generateFood rnd (newHead s # snake s) = Some (f, r)"
    by (cases "generateFood rnd (newHead s # snake s)") auto
  then have "(case generateFood rnd (newHead s # snake s) of
              None \<Rightarrow> None
            | Some (newFood, rnd') \<Rightarrow>
                Some (s\<lparr>snake := newHead s # snake s, food := newFood,
                        score := score s + 10\<rparr>, rnd'))
      = Some (s\<lparr>snake := newHead s # snake s, food := f, score := score s + 10\<rparr>, r)"
    by simp
  then show ?thesis
    unfolding gl by (simp only: split: if_split) blast
qed


text \<open>Two runs of the eating step used below: on any random source, and on the source
  whose first proposal \<open>(11,10)\<close> is on the grown snake and whose second is \<open>(3,4)\<close>.\<close>

lemma gameLoop_eating_example:
  "gameLoop rnd
     \<lparr>gameState = Playing, snake = [\<lparr>x = 10, y = 10\<rparr>], food = \<lparr>x = 11, y = 10\<rparr>,
      direction = \<lparr>x = 1, y = 0\<rparr>, score = sc\<rparr>
   = (case generateFood rnd [\<lparr>x = 11, y = 10\<rparr>, \<lparr>x = 10, y = 10\<rparr>] of
        None \<Rightarrow> None
      | Some (newFood, rnd') \<Rightarrow>
          Some (\<lparr>gameState = Playing, snake = [\<lparr>x = 11, y = 10\<rparr>, \<lparr>x = 10, y = 10\<rparr>],
                 food = newFood, direction = \<lparr>x = 1, y = 0\<rparr>, score = sc + 10\<rparr>, rnd'))"
  by (simp add: gameLoop_def Let_def GRID_SIZE_def split: option.splits)

lemma generateFood_example:
  "generateFood (11 ## 10 ## 3 ## 4 ## sconst 0)
     [\<lparr>x = 11, y = 10\<rparr>, \<lparr>x = 10, y = 10\<rparr>] = Some (\<lparr>x = 3, y = 4\<rparr>, sconst 0)"
  by (simp add: generateFood_unfold proposal_SCons_0 GRID_SIZE_def)

lemma gameLoop_example:
  "gameLoop (11 ## 10 ## 3 ## 4 ## sconst 0)
     \<lparr>gameState = Playing, snake = [\<lparr>x = 10, y = 10\<rparr>], food = \<lparr>x = 11, y = 10\<rparr>,
      direction = \<lparr>x = 1, y = 0\<rparr>, score = 0\<rparr>
   = Some (\<lparr>gameState = Playing, snake = [\<lparr>x = 11, y = 10\<rparr>, \<lparr>x = 10, y = 10\<rparr>],
            food = \<lparr>x = 3, y = 4\<rparr>, direction = \<lparr>x = 1, y = 0\<rparr>, score = 10\<rparr>, sconst 0)"
  by (simp add: gameLoop_def Let_def GRID_SIZE_def generateFood_example)

section \<open>Facts about the keyboard handler\<close>

lemma handleKeyPress_not_playing:
  "gameState s \<noteq> Playing \<Longrightarrow>
   handleKeyPress key s =
     (if gameState s = Paused \<and> key = '' '' then s\<lparr>gameState := Playing\<rparr> else s)"
  by (simp add: handleKeyPress_def)

lemma handleKeyPress_playing:
  "gameState s = Playing \<Longrightarrow>
   handleKeyPress key s =
     (case keyVector key of
        Some v \<Rightarrow>
          if (if x v = 0 then y (direction s) = 0 else x (direction s) = 0)
          then s\<lparr>direction := v\<rparr> else s
      | None \<Rightarrow> if key = '' '' then s\<lparr>gameState := Paused\<rparr> else s)"
  by (simp add: handleKeyPress_def keyVector_def)

lemma keyVector_is_direction: "keyVector key = Some v \<Longrightarrow> is_direction v"
  by (simp add: keyVector_def is_direction_def split: if_splits)

lemma keyVector_space: "keyVector '' '' = None"
  by (simp add: keyVector_def)

lemma same_axis_iff:
  assumes "is_direction d" and "is_direction v"
  shows "same_axis d v = (v = d \<or> v = opposite d)"
  using assms unfolding is_direction_def
  by (elim disjE) (simp_all add: same_axis_def opposite_def)

lemma same_axis_guard:
  "is_direction d \<Longrightarrow> is_direction v \<Longrightarrow>
   (if x v = 0 then y d = 0 else x d = 0) = (\<not> same_axis d v)"
  by (auto simp: is_direction_def same_axis_def)

lemma is_direction_not_opposite: "is_direction d \<Longrightarrow> d \<noteq> opposite d"
  by (auto simp: is_direction_def opposite_def)

lemma handleKeyPress_rejects:
  assumes "is_direction (direction s)" and "keyVector key = Some v"
    and "same_axis (direction s) v"
  shows "handleKeyPress key s = s"
proof (cases "gameState s = Playing")
  case False
  have "key \<noteq> '' ''"
    using assms(2) keyVector_space by auto
  then show ?thesis
    using False by (simp add: handleKeyPress_not_playing)
next
  case True
  have "\<not> (if x v = 0 then y (direction s) = 0 else x (direction s) = 0)"
    using same_axis_guard[OF assms(1) keyVector_is_direction[OF assms(2)]] assms(3) by simp
  then show ?thesis
    by (simp add: handleKeyPress_playing[OF True] assms(2))
qed

lemma handleKeyPress_accepts:
  assumes "gameState s = Playing" and "is_direction (direction s)"
    and "keyVector key = Some v" and "\<not> same_axis (direction s) v"
  shows "handleKeyPress key s = s\<lparr>direction := v\<rparr>"
proof -
  have "if x v = 0 then y (direction s) = 0 else x (direction s) = 0"
    using same_axis_guard[OF assms(2) keyVector_is_direction[OF assms(3)]] assms(4) by simp
  then show ?thesis
    by (simp add: handleKeyPress_playing[OF assms(1)] assms(3))
qed

lemma handleKeyPress_never_reverses:
  assumes "is_direction (direction s)"
  shows "direction (handleKeyPress key s) \<noteq> opposite (direction s)"
proof -
  consider (same) "direction (handleKeyPress key s) = direction s"
    | (turn) v where "gameState s = Playing" "keyVector key = Some v"
        "\<not> same_axis (direction s) v"
  proof (cases "gameState s = Playing")
    case False
    then have "direction (handleKeyPress key s) = direction s"
      by (simp add: handleKeyPress_not_playing)
    then show ?thesis by (rule same)
  next
    case True
    show ?thesis
    proof (cases "keyVector key")
      case None
      then have "direction (handleKeyPress key s) = direction s"
        by (simp add: handleKeyPress_playing[OF True])
      then show ?thesis by (rule same)
    next
      case (Some v)
      show ?thesis
      proof (cases "same_axis (direction s) v")
        case True
        then have "handleKeyPress key s = s"
          using assms Some by (intro handleKeyPress_rejects)
        then have "direction (handleKeyPress key s) = direction s" by simp
        then show ?thesis by (rule same)
      next
        case False
        with \<open>gameState s = Playing\<close> Some show ?thesis by (rule turn)
      qed
    qed
  qed
  then show ?thesis
  proof cases
    case same
    then show ?thesis
      using is_direction_not_opposite[OF assms] by simp
  next
    case (turn v)
    have "handleKeyPress key s = s\<lparr>direction := v\<rparr>"
      using turn(1) assms turn(2,3) by (rule handleKeyPress_accepts)
    moreover have "v \<noteq> opposite (direction s)"
      using turn(3) same_axis_iff[OF assms keyVector_is_direction[OF turn(2)]] by simp
    ultimately show ?thesis by simp
  qed
qed

text \<open>The direction of every reachable state is one of the four unit vectors: the tick
  never writes it, and the handler and restart write unit vectors only.\<close>

lemma direction_handleKeyPress:
  assumes "is_direction (direction s)"
  shows "is_direction (direction (handleKeyPress key s))"
proof (cases "gameState s = Playing")
  case False
  then show ?thesis
    using assms by (simp add: handleKeyPress_not_playing)
next
  case True
  show ?thesis
  proof (cases "keyVector key")
    case None
    then show ?thesis
      using assms by (simp add: handleKeyPress_playing[OF True])
  next
    case (Some v)
    then show ?thesis
      using assms keyVector_is_direction[OF Some]
      by (simp add: handleKeyPress_playing[OF True])
  qed
qed

lemma direction_gameLoop:
  assumes "gameLoop rnd s = Some (s', rnd')"
  shows "direction s' = direction s"
proof (cases "gameState s = Playing \<and> snake s \<noteq> []")
  case False
  then have "s' = s"
    using assms gameLoop_not_playing[of s rnd] gameLoop_empty[of s rnd] by auto
  then show ?thesis by simp
next
  case True
  then have gl: "gameLoop rnd s =
     (if \<not> in_grid (newHead s) then Some (s\<lparr>gameState := GameOver\<rparr>, rnd)
      else if newHead s \<in> set (snake s) then Some (s\<lparr>gameState := GameOver\<rparr>, rnd)
      else if newHead s = food s
      then (case generateFood rnd (newHead s # snake s) of
              None \<Rightarrow> None
            | Some (newFood, rnd') \<Rightarrow>
                Some (s\<lparr>snake := newHead s # snake s, food := newFood,
                        score := score s + 10\<rparr>, rnd'))
      else Some (s\<lparr>snake := butlast (newHead s # snake s)\<rparr>, rnd))"
    by (intro gameLoop_playing) simp_all
  show ?thesis
    using assms unfolding gl by (auto split: if_splits option.splits)
qed

lemma reachable_is_direction: "reachable s \<Longrightarrow> is_direction (direction s)"
proof (induction rule: reachable.induct)
  case reach_init
  show ?case by (simp add: initialGame_def INITIAL_DIRECTION_def is_direction_def)
next
  case (reach_start s)
  show ?case
    by (simp add: startGame_def resetGame_def INITIAL_DIRECTION_def is_direction_def)
next
  case (reach_key s key)
  then show ?case by (simp add: direction_handleKeyPress)
next
  case (reach_tick s rnd s' rnd')
  then show ?case by (simp add: direction_gameLoop)
qed

section \<open>The snake's invariant\<close>

text \<open>
  C1. In every reachable state the snake is non-empty and has no position twice. The
  invariant is kept by restart, by the keyboard handler and by the tick: a tick that
  returns from a state with the invariant gives a snake of pairwise distinct segments and
  length at least one, and either keeps the phase or keeps the snake and sets the phase
  to game over. The tick returns whenever the random source proposes some cell off the
  grown snake (the only loop of the tick is the food placement).
\<close>

theorem snake_invariant:
  "(reachable s \<longrightarrow> snake_inv (snake s))
   \<and> (snake_inv (snake s) \<longrightarrow>
        snake_inv (snake (startGame s))
        \<and> snake_inv (snake (handleKeyPress key s))
        \<and> (\<forall>s' rnd'. gameLoop rnd s = Some (s', rnd') \<longrightarrow>
              distinct (snake s') \<and> 1 \<le> length (snake s')
              \<and> (gameState s' = gameState s
                  \<or> (snake s' = snake s \<and> gameState s' = GameOver))))
   \<and> ((\<exists>k. proposal rnd k \<notin> set (newHead s # snake s)) \<longrightarrow>
        (\<exists>s' rnd'. gameLoop rnd s = Some (s', rnd')))"
proof (intro conjI impI allI)
  assume "reachable s"
  then show "snake_inv (snake s)" by (rule reachable_snake_inv)
next
  show "snake_inv (snake (startGame s))" by (rule snake_inv_startGame)
next
  assume "snake_inv (snake s)"
  then show "snake_inv (snake (handleKeyPress key s))" by (simp add: snake_handleKeyPress)
next
  fix s' rnd'
  assume a: "snake_inv (snake s)" "gameLoop rnd s = Some (s', rnd')"
  have i: "snake_inv (snake s')"
    using gameLoop_step_inv[OF a] by simp
  show "distinct (snake s')" using i by (simp add: snake_inv_def)
  show "1 \<le> length (snake s')" using i by (cases "snake s'") (simp_all add: snake_inv_def)
  show "gameState s' = gameState s \<or> (snake s' = snake s \<and> gameState s' = GameOver)"
    using gameLoop_step_inv[OF a] by simp
next
  assume "\<exists>k. proposal rnd k \<notin> set (newHead s # snake s)"
  then show "\<exists>s' rnd'. gameLoop rnd s = Some (s', rnd')" by (rule gameLoop_returns)
qed

theorem snake_invariant_witness:
  "reachable (startGame initialGame)
   \<and> snake_inv (snake (startGame initialGame))
   \<and> gameLoop (sconst 0) (startGame initialGame) =
       Some (\<lparr>gameState = Playing, snake = [\<lparr>x = 10, y = 9\<rparr>], food = \<lparr>x = 15, y = 15\<rparr>,
              direction = \<lparr>x = 0, y = - 1\<rparr>, score = 0\<rparr>, sconst 0)
   \<and> snake_inv [\<lparr>x = 10, y = 9\<rparr>]"
proof -
  have r: "reachable (startGame initialGame)"
    by (intro reach_start reach_init)
  have g: "gameLoop (sconst 0) (startGame initialGame) =
       Some (\<lparr>gameState = Playing, snake = [\<lparr>x = 10, y = 9\<rparr>], food = \<lparr>x = 15, y = 15\<rparr>,
              direction = \<lparr>x = 0, y = - 1\<rparr>, score = 0\<rparr>, sconst 0)"
    by (simp add: gameLoop_def startGame_def resetGame_def initialGame_def INITIAL_SNAKE_def
        INITIAL_FOOD_def INITIAL_DIRECTION_def GRID_SIZE_def Let_def)
  show ?thesis
    using r g snake_invariant[of "startGame initialGame" "''w''" "sconst 0"]
    by (simp add: snake_inv_def)
qed

section \<open>Collisions\<close>

text \<open>
  C2. Wall collision: in phase playing, for every non-empty snake and every direction, if
  the cell the head moves to is outside \<open>[0, GRID_SIZE)\<close> on either axis, the tick sets
  the phase to game over and changes nothing else: snake, food, score and direction are
  those of the state before, and no random number is drawn.
\<close>

theorem wall_collision:
  assumes "gameState s = Playing" and "snake s \<noteq> []" and "\<not> in_grid (newHead s)"
  shows "gameLoop rnd s = Some (s\<lparr>gameState := GameOver\<rparr>, rnd)"
  using assms by (simp add: gameLoop_playing)

theorem wall_collision_witness:
  "gameLoop (sconst 0)
     \<lparr>gameState = Playing, snake = [\<lparr>x = 0, y = 5\<rparr>, \<lparr>x = 1, y = 5\<rparr>],
      food = \<lparr>x = 15, y = 15\<rparr>, direction = \<lparr>x = - 1, y = 0\<rparr>, score = 30\<rparr>
   = Some (\<lparr>gameState = GameOver, snake = [\<lparr>x = 0, y = 5\<rparr>, \<lparr>x = 1, y = 5\<rparr>],
            food = \<lparr>x = 15, y = 15\<rparr>, direction = \<lparr>x = - 1, y = 0\<rparr>, score = 30\<rparr>, sconst 0)"
  using wall_collision[of "\<lparr>gameState = Playing, snake = [\<lparr>x = 0, y = 5\<rparr>, \<lparr>x = 1, y = 5\<rparr>],
      food = \<lparr>x = 15, y = 15\<rparr>, direction = \<lparr>x = - 1, y = 0\<rparr>, score = 30\<rparr>" "sconst 0"]
  by (simp add: newHead_def in_grid_def GRID_SIZE_def)

text \<open>
  C3. Self collision: in phase playing, if the cell the head moves to is on the grid and is
  one of the segments of the current snake (the last one, the tail, included), the tick
  sets the phase to game over and leaves the snake as it is. The instance after it moves the
  head onto the tail.
\<close>

theorem self_collision:
  assumes "gameState s = Playing" and "snake s \<noteq> []" and "in_grid (newHead s)"
    and "newHead s \<in> set (snake s)"
  shows "gameLoop rnd s = Some (s\<lparr>gameState := GameOver\<rparr>, rnd)"
  using assms by (simp add: gameLoop_playing)

theorem self_collision_witness:
  "gameLoop (sconst 0)
     \<lparr>gameState = Playing,
      snake = [\<lparr>x = 5, y = 5\<rparr>, \<lparr>x = 5, y = 6\<rparr>, \<lparr>x = 6, y = 6\<rparr>, \<lparr>x = 6, y = 5\<rparr>],
      food = \<lparr>x = 15, y = 15\<rparr>, direction = \<lparr>x = 1, y = 0\<rparr>, score = 30\<rparr>
   = Some (\<lparr>gameState = GameOver,
            snake = [\<lparr>x = 5, y = 5\<rparr>, \<lparr>x = 5, y = 6\<rparr>, \<lparr>x = 6, y = 6\<rparr>, \<lparr>x = 6, y = 5\<rparr>],
            food = \<lparr>x = 15, y = 15\<rparr>, direction = \<lparr>x = 1, y = 0\<rparr>, score = 30\<rparr>, sconst 0)"
  using self_collision[of "\<lparr>gameState = Playing,
      snake = [\<lparr>x = 5, y = 5\<rparr>, \<lparr>x = 5, y = 6\<rparr>, \<lparr>x = 6, y = 6\<rparr>, \<lparr>x = 6, y = 5\<rparr>],
      food = \<lparr>x = 15, y = 15\<rparr>, direction = \<lparr>x = 1, y = 0\<rparr>, score = 30\<rparr>" "sconst 0"]
  by (simp add: newHead_def in_grid_def GRID_SIZE_def)

section \<open>Eating and food placement\<close>

text \<open>
  C4. Eating step: from snake \<open>[(10,10)]\<close>, food \<open>(11,10)\<close>, direction \<open>(1,0)\<close> and score
  \<open>sc\<close> in phase playing, a tick that returns yields the snake \<open>[(11,10),(10,10)]\<close>, the
  score \<open>sc + 10\<close> (so \<open>10\<close> from \<open>0\<close>) and a food that is neither \<open>(11,10)\<close> nor
  \<open>(10,10)\<close>, and on the grid when the floored draws are in range; phase and direction are
  kept. The tick returns whenever the random source proposes a cell other than those two.
\<close>

theorem eating_step:
  "(gameLoop rnd
      \<lparr>gameState = Playing, snake = [\<lparr>x = 10, y = 10\<rparr>], food = \<lparr>x = 11, y = 10\<rparr>,
       direction = \<lparr>x = 1, y = 0\<rparr>, score = sc\<rparr> = Some (s', rnd') \<longrightarrow>
      snake s' = [\<lparr>x = 11, y = 10\<rparr>, \<lparr>x = 10, y = 10\<rparr>]
      \<and> score s' = sc + 10
      \<and> food s' \<notin> {\<lparr>x = 11, y = 10\<rparr>, \<lparr>x = 10, y = 10\<rparr>}
      \<and> (random_ok rnd \<longrightarrow> in_grid (food s'))
      \<and> gameState s' = Playing
      \<and> direction s' = \<lparr>x = 1, y = 0\<rparr>)
   \<and> ((\<exists>k. proposal rnd k \<notin> {\<lparr>x = 11, y = 10\<rparr>, \<lparr>x = 10, y = 10\<rparr>}) \<longrightarrow>
        (\<exists>s'' rnd''. gameLoop rnd
           \<lparr>gameState = Playing, snake = [\<lparr>x = 10, y = 10\<rparr>], food = \<lparr>x = 11, y = 10\<rparr>,
            direction = \<lparr>x = 1, y = 0\<rparr>, score = sc\<rparr> = Some (s'', rnd'')))"
proof (intro conjI impI)
  let ?body = "[\<lparr>x = 11, y = 10\<rparr>, \<lparr>x = 10, y = 10\<rparr>]"
  assume "\<exists>k. proposal rnd k \<notin> {\<lparr>x = 11, y = 10\<rparr>, \<lparr>x = 10, y = 10\<rparr>}"
  then have "\<exists>k. proposal rnd k \<notin> set ?body" by simp
  then have "generateFood rnd ?body \<noteq> None"
    by (simp only: generateFood_None_iff) blast
  then obtain f r where "generateFood rnd ?body = Some (f, r)"
    by (cases "generateFood rnd ?body") auto
  then show "\<exists>s'' rnd''. gameLoop rnd
           \<lparr>gameState = Playing, snake = [\<lparr>x = 10, y = 10\<rparr>], food = \<lparr>x = 11, y = 10\<rparr>,
            direction = \<lparr>x = 1, y = 0\<rparr>, score = sc\<rparr> = Some (s'', rnd'')"
    by (simp add: gameLoop_eating_example)
next
  let ?body = "[\<lparr>x = 11, y = 10\<rparr>, \<lparr>x = 10, y = 10\<rparr>]"
  assume step: "gameLoop rnd
      \<lparr>gameState = Playing, snake = [\<lparr>x = 10, y = 10\<rparr>], food = \<lparr>x = 11, y = 10\<rparr>,
       direction = \<lparr>x = 1, y = 0\<rparr>, score = sc\<rparr> = Some (s', rnd')"
  then obtain f where f: "generateFood rnd ?body = Some (f, rnd')"
    and s': "s' = \<lparr>gameState = Playing, snake = ?body, food = f,
        direction = \<lparr>x = 1, y = 0\<rparr>, score = sc + 10\<rparr>"
    by (auto simp add: gameLoop_eating_example split: option.splits)
  show "snake s' = ?body" "score s' = sc + 10" "gameState s' = Playing"
    "direction s' = \<lparr>x = 1, y = 0\<rparr>"
    by (simp_all add: s')
  have "f \<notin> set ?body" using f by (rule generateFood_avoids)
  then show "food s' \<notin> {\<lparr>x = 11, y = 10\<rparr>, \<lparr>x = 10, y = 10\<rparr>}"
    by (simp add: s')
  show "in_grid (food s')" if "random_ok rnd"
  proof -
    obtain k where "f = proposal rnd k"
      using generateFood_Some_D[OF f] by auto
    then show ?thesis using that by (simp add: s' proposal_in_grid)
  qed
qed

theorem eating_step_witness:
  "gameLoop (11 ## 10 ## 3 ## 4 ## sconst 0)
     \<lparr>gameState = Playing, snake = [\<lparr>x = 10, y = 10\<rparr>], food = \<lparr>x = 11, y = 10\<rparr>,
      direction = \<lparr>x = 1, y = 0\<rparr>, score = 0\<rparr>
   = Some (\<lparr>gameState = Playing, snake = [\<lparr>x = 11, y = 10\<rparr>, \<lparr>x = 10, y = 10\<rparr>],
            food = \<lparr>x = 3, y = 4\<rparr>, direction = \<lparr>x = 1, y = 0\<rparr>, score = 10\<rparr>, sconst 0)
   \<and> \<lparr>x = 3, y = 4\<rparr> \<notin> {\<lparr>x = 11, y = 10\<rparr>, \<lparr>x = 10, y = 10\<rparr>}
   \<and> random_ok (11 ## 10 ## 3 ## 4 ## sconst 0)
   \<and> in_grid \<lparr>x = 3, y = 4\<rparr>"
proof -
  let ?rnd = "11 ## 10 ## 3 ## 4 ## sconst (0::int)"
  have ok: "random_ok ?rnd"
    by (simp add: random_ok_SCons random_ok_sconst GRID_SIZE_def)
  show ?thesis
    using ok gameLoop_example
      eating_step[of ?rnd 0
        "\<lparr>gameState = Playing, snake = [\<lparr>x = 11, y = 10\<rparr>, \<lparr>x = 10, y = 10\<rparr>],
          food = \<lparr>x = 3, y = 4\<rparr>, direction = \<lparr>x = 1, y = 0\<rparr>, score = 10\<rparr>" "sconst 0"]
    by simp
qed



text \<open>
  C9. Termination of food placement: the loop of \<open>generateFood\<close> has no bound. On a body
  that occupies every cell of the grid it never exits (with floored draws in range). On any
  body, it exits if and only if the random source at some round proposes a cell off the
  body, and then it returns the first such proposal, with the rest of the source. The
  number of rounds has no bound: on a body with an occupied cell and a free cell of the
  grid, for every \<open>n\<close> some random source with floored draws in range is rejected \<open>n\<close> times
  before the loop exits.
\<close>

theorem generateFood_termination:
  "(random_ok rnd \<and> saturated body \<longrightarrow> generateFood rnd body = None)
   \<and> ((\<exists>r. generateFood rnd body = Some r) = (\<exists>k. proposal rnd k \<notin> set body))
   \<and> ((\<exists>k. proposal rnd k \<notin> set body) \<longrightarrow>
        generateFood rnd body =
          Some (proposal rnd (LEAST k. proposal rnd k \<notin> set body),
                sdrop (2 * Suc (LEAST k. proposal rnd k \<notin> set body)) rnd))
   \<and> (in_grid p \<and> p \<in> set body \<and> in_grid q \<and> q \<notin> set body \<longrightarrow>
        (\<exists>rnd'. random_ok rnd' \<and> (\<forall>j<n. proposal rnd' j \<in> set body)
           \<and> generateFood rnd' body = Some (q, sdrop (2 * Suc n) rnd')))"
proof (intro conjI impI)
  assume "random_ok rnd \<and> saturated body"
  then show "generateFood rnd body = None"
    by (simp add: generateFood_saturated)
next
  have "(\<exists>r. generateFood rnd body = Some r) = (generateFood rnd body \<noteq> None)"
    by auto
  then show "(\<exists>r. generateFood rnd body = Some r) = (\<exists>k. proposal rnd k \<notin> set body)"
    by (simp add: generateFood_None_iff)
next
  assume "\<exists>k. proposal rnd k \<notin> set body"
  then show "generateFood rnd body =
          Some (proposal rnd (LEAST k. proposal rnd k \<notin> set body),
                sdrop (2 * Suc (LEAST k. proposal rnd k \<notin> set body)) rnd)"
    by (rule generateFood_least)
next
  assume "in_grid p \<and> p \<in> set body \<and> in_grid q \<and> q \<notin> set body"
  then show "\<exists>rnd'. random_ok rnd' \<and> (\<forall>j<n. proposal rnd' j \<in> set body)
           \<and> generateFood rnd' body = Some (q, sdrop (2 * Suc n) rnd')"
    using generateFood_any_round[of p body q n] by simp
qed

theorem generateFood_termination_witness:
  "random_ok (sconst 0) \<and> saturated fullGrid \<and> generateFood (sconst 0) fullGrid = None
   \<and> generateFood (10 ## 10 ## 3 ## 4 ## sconst 0) [\<lparr>x = 10, y = 10\<rparr>]
       = Some (\<lparr>x = 3, y = 4\<rparr>, sconst 0)
   \<and> (\<exists>rnd'. random_ok rnd' \<and> (\<forall>j<5. proposal rnd' j \<in> set [\<lparr>x = 10, y = 10\<rparr>])
         \<and> generateFood rnd' [\<lparr>x = 10, y = 10\<rparr>]
             = Some (\<lparr>x = 3, y = 4\<rparr>, sdrop (2 * Suc 5) rnd'))"
proof -
  let ?rnd = "10 ## 10 ## 3 ## 4 ## sconst (0::int)"
  let ?body = "[\<lparr>x = 10, y = 10\<rparr>]"
  have ok: "random_ok (sconst 0)" by (simp add: random_ok_sconst GRID_SIZE_def)
  have p0: "proposal ?rnd 0 = \<lparr>x = 10, y = 10\<rparr>"
    by (simp add: proposal_SCons_0 GRID_SIZE_def)
  have p1: "proposal ?rnd (Suc 0) = \<lparr>x = 3, y = 4\<rparr>"
    by (simp add: proposal_SCons_0 proposal_SCons_Suc GRID_SIZE_def)
  have l: "(LEAST k. proposal ?rnd k \<notin> set ?body) = Suc 0"
  proof (rule Least_equality)
    show "proposal ?rnd (Suc 0) \<notin> set ?body" by (simp add: p1)
    fix k assume "proposal ?rnd k \<notin> set ?body"
    then have "k \<noteq> 0" using p0 by (cases k) auto
    then show "Suc 0 \<le> k" by simp
  qed
  have e: "\<exists>k. proposal ?rnd k \<notin> set ?body"
    by (rule exI[of _ "Suc 0"]) (simp add: p1)
  have d: "sdrop (2 * Suc (Suc 0)) ?rnd = sconst 0"
    by (simp add: numeral_2_eq_2)
  have never: "generateFood (sconst 0) fullGrid = None"
    using ok saturated_fullGrid generateFood_termination[of "sconst 0" fullGrid]
    by (simp only: simp_thms)
  have first: "generateFood ?rnd ?body = Some (\<lparr>x = 3, y = 4\<rparr>, sconst 0)"
    using e generateFood_termination[of ?rnd ?body]
    by (simp only: l p1 d simp_thms)
  have late: "\<exists>rnd'. random_ok rnd' \<and> (\<forall>j<5. proposal rnd' j \<in> set ?body)
         \<and> generateFood rnd' ?body = Some (\<lparr>x = 3, y = 4\<rparr>, sdrop (2 * Suc 5) rnd')"
    using generateFood_termination[of "sconst 0" ?body "\<lparr>x = 10, y = 10\<rparr>" "\<lparr>x = 3, y = 4\<rparr>" 5]
    by (simp add: in_grid_def GRID_SIZE_def)
  show ?thesis
    using ok saturated_fullGrid never first late by (intro conjI)
qed

section \<open>Keyboard\<close>

text \<open>
  C6. Direction rejection: when the current direction is one of the four unit vectors and
  a key stands for a vector on the same axis (the same vector or its reverse), the key
  event leaves the direction, and the whole state, unchanged. No key event sets the
  direction to the reverse of the current one. (The direction of every reachable state
  is such a unit vector, by \<open>reachable_is_direction\<close>.)
\<close>

theorem direction_rejection:
  assumes "is_direction (direction s)"
  shows "(keyVector key = Some v \<and> same_axis (direction s) v \<longrightarrow>
            direction (handleKeyPress key s) = direction s \<and> handleKeyPress key s = s)
         \<and> direction (handleKeyPress key' s) \<noteq> opposite (direction s)"
proof (intro conjI impI)
  assume a: "keyVector key = Some v \<and> same_axis (direction s) v"
  then show e: "handleKeyPress key s = s"
    using assms by (intro handleKeyPress_rejects[of s key v]) simp_all
  then show "direction (handleKeyPress key s) = direction s" by simp
next
  show "direction (handleKeyPress key' s) \<noteq> opposite (direction s)"
    using assms by (rule handleKeyPress_never_reverses)
qed

theorem direction_rejection_witness:
  "handleKeyPress ''ArrowLeft''
     \<lparr>gameState = Playing, snake = [\<lparr>x = 10, y = 10\<rparr>], food = \<lparr>x = 15, y = 15\<rparr>,
      direction = \<lparr>x = 1, y = 0\<rparr>, score = 0\<rparr>
   = \<lparr>gameState = Playing, snake = [\<lparr>x = 10, y = 10\<rparr>], food = \<lparr>x = 15, y = 15\<rparr>,
      direction = \<lparr>x = 1, y = 0\<rparr>, score = 0\<rparr>
   \<and> direction (handleKeyPress ''w''
        \<lparr>gameState = Playing, snake = [\<lparr>x = 10, y = 10\<rparr>], food = \<lparr>x = 15, y = 15\<rparr>,
         direction = \<lparr>x = 1, y = 0\<rparr>, score = 0\<rparr>) \<noteq> \<lparr>x = - 1, y = 0\<rparr>"
  using direction_rejection[of
      "\<lparr>gameState = Playing, snake = [\<lparr>x = 10, y = 10\<rparr>], food = \<lparr>x = 15, y = 15\<rparr>,
        direction = \<lparr>x = 1, y = 0\<rparr>, score = 0\<rparr>" "''ArrowLeft''" "\<lparr>x = - 1, y = 0\<rparr>" "''w''"]
  by (simp add: is_direction_def keyVector_def same_axis_def opposite_def)

text \<open>
  C7. Space toggles paused and playing: a Space key event in phase playing sets the phase
  to paused, one in phase paused sets it to playing, and neither changes anything else.
  In a phase that is neither playing nor paused, no key event changes the direction.
\<close>

theorem space_toggles:
  "(gameState s = Playing \<longrightarrow> handleKeyPress '' '' s = s\<lparr>gameState := Paused\<rparr>)
   \<and> (gameState s = Paused \<longrightarrow> handleKeyPress '' '' s = s\<lparr>gameState := Playing\<rparr>)
   \<and> (gameState s \<noteq> Playing \<and> gameState s \<noteq> Paused \<longrightarrow>
        direction (handleKeyPress key s) = direction s)"
  by (simp add: handleKeyPress_def)

theorem space_toggles_witness:
  "handleKeyPress '' ''
     \<lparr>gameState = Playing, snake = [\<lparr>x = 10, y = 10\<rparr>], food = \<lparr>x = 15, y = 15\<rparr>,
      direction = \<lparr>x = 1, y = 0\<rparr>, score = 0\<rparr>
   = \<lparr>gameState = Paused, snake = [\<lparr>x = 10, y = 10\<rparr>], food = \<lparr>x = 15, y = 15\<rparr>,
      direction = \<lparr>x = 1, y = 0\<rparr>, score = 0\<rparr>
   \<and> handleKeyPress '' ''
     \<lparr>gameState = Paused, snake = [\<lparr>x = 10, y = 10\<rparr>], food = \<lparr>x = 15, y = 15\<rparr>,
      direction = \<lparr>x = 1, y = 0\<rparr>, score = 0\<rparr>
   = \<lparr>gameState = Playing, snake = [\<lparr>x = 10, y = 10\<rparr>], food = \<lparr>x = 15, y = 15\<rparr>,
      direction = \<lparr>x = 1, y = 0\<rparr>, score = 0\<rparr>
   \<and> direction (handleKeyPress ''ArrowUp''
     \<lparr>gameState = GameOver, snake = [\<lparr>x = 10, y = 10\<rparr>], food = \<lparr>x = 15, y = 15\<rparr>,
      direction = \<lparr>x = 1, y = 0\<rparr>, score = 0\<rparr>) = \<lparr>x = 1, y = 0\<rparr>"
  using space_toggles[of
      "\<lparr>gameState = Playing, snake = [\<lparr>x = 10, y = 10\<rparr>], food = \<lparr>x = 15, y = 15\<rparr>,
        direction = \<lparr>x = 1, y = 0\<rparr>, score = 0\<rparr>" "''ArrowUp''"]
    space_toggles[of
      "\<lparr>gameState = Paused, snake = [\<lparr>x = 10, y = 10\<rparr>], food = \<lparr>x = 15, y = 15\<rparr>,
        direction = \<lparr>x = 1, y = 0\<rparr>, score = 0\<rparr>" "''ArrowUp''"]
    space_toggles[of
      "\<lparr>gameState = GameOver, snake = [\<lparr>x = 10, y = 10\<rparr>], food = \<lparr>x = 15, y = 15\<rparr>,
        direction = \<lparr>x = 1, y = 0\<rparr>, score = 0\<rparr>" "''ArrowUp''"]
  by simp

text \<open>
  C10. Keyboard no-op frame: a key event changes nothing unless the phase is playing, or
  the phase is paused and the key is Space. In the phases menu and game over neither a
  key event nor a tick changes the state; restart sets the phase to playing.
\<close>

theorem keyboard_frame:
  "(\<not> (gameState s = Playing \<or> (gameState s = Paused \<and> key = '' '')) \<longrightarrow>
      handleKeyPress key s = s)
   \<and> (gameState s = Menu \<or> gameState s = GameOver \<longrightarrow>
        handleKeyPress key s = s \<and> gameLoop rnd s = Some (s, rnd)
        \<and> gameState (startGame s) = Playing)"
  by (auto simp add: handleKeyPress_def gameLoop_def startGame_def)

theorem keyboard_frame_witness:
  "handleKeyPress ''ArrowUp''
     \<lparr>gameState = Paused, snake = [\<lparr>x = 10, y = 10\<rparr>], food = \<lparr>x = 15, y = 15\<rparr>,
      direction = \<lparr>x = 1, y = 0\<rparr>, score = 0\<rparr>
   = \<lparr>gameState = Paused, snake = [\<lparr>x = 10, y = 10\<rparr>], food = \<lparr>x = 15, y = 15\<rparr>,
      direction = \<lparr>x = 1, y = 0\<rparr>, score = 0\<rparr>
   \<and> handleKeyPress '' ''
     \<lparr>gameState = GameOver, snake = [\<lparr>x = 10, y = 0\<rparr>], food = \<lparr>x = 15, y = 15\<rparr>,
      direction = \<lparr>x = 0, y = - 1\<rparr>, score = 20\<rparr>
   = \<lparr>gameState = GameOver, snake = [\<lparr>x = 10, y = 0\<rparr>], food = \<lparr>x = 15, y = 15\<rparr>,
      direction = \<lparr>x = 0, y = - 1\<rparr>, score = 20\<rparr>
   \<and> handleKeyPress '' '' initialGame = initialGame"
  using keyboard_frame[of
      "\<lparr>gameState = Paused, snake = [\<lparr>x = 10, y = 10\<rparr>], food = \<lparr>x = 15, y = 15\<rparr>,
        direction = \<lparr>x = 1, y = 0\<rparr>, score = 0\<rparr>" "''ArrowUp''"]
    keyboard_frame[of
      "\<lparr>gameState = GameOver, snake = [\<lparr>x = 10, y = 0\<rparr>], food = \<lparr>x = 15, y = 15\<rparr>,
        direction = \<lparr>x = 0, y = - 1\<rparr>, score = 20\<rparr>" "'' ''"]
    keyboard_frame[of initialGame "'' ''"]
  by (simp add: initialGame_def)

section \<open>Restart\<close>

text \<open>
  C8. Restart sets the snake to \<open>[(10,10)]\<close>, the food to \<open>(15,15)\<close>, the direction to
  \<open>(0,-1)\<close>, the score to \<open>0\<close> and the phase to playing, from every state (a terminal one
  included); restarting the state it yields gives that state again.
\<close>

theorem startGame_resets:
  "startGame s =
     \<lparr>gameState = Playing, snake = [\<lparr>x = 10, y = 10\<rparr>], food = \<lparr>x = 15, y = 15\<rparr>,
      direction = \<lparr>x = 0, y = - 1\<rparr>, score = 0\<rparr>
   \<and> startGame (startGame s) = startGame s"
  by (simp add: startGame_def resetGame_def INITIAL_SNAKE_def INITIAL_FOOD_def
      INITIAL_DIRECTION_def)

end
